theory Spec2Isabelle
  imports Complex_Main "HOL-Library.Multiset" "HOL-Library.Sublist"
begin

section \<open>Data frames\<close>

text \<open>
  A pandas \<^verbatim>\<open>DataFrame\<close> is modelled by its columns, in order: a list of pairs of a
  column name and the column's values, one value per row. The plotting path reads numeric
  columns only, so its frames carry \<^typ>\<open>real\<close> cells (the specification's data model:
  time and flux are real numbers); IEEE rounding and NaN cells are outside the model.
\<close>

type_synonym 'v dataframe = "(string \<times> 'v list) list"

datatype py_error = KeyError string | IndexError string | ValueError string

definition columns :: "'v dataframe \<Rightarrow> string list" where
  "columns df = map fst df"

text \<open>\<^verbatim>\<open>df[name]\<close>: the column, or \<^verbatim>\<open>KeyError\<close> when there is none of that name.\<close>

definition getitem :: "'v dataframe \<Rightarrow> string \<Rightarrow> py_error + 'v list" where
  "getitem df name = (case map_of df name of None \<Rightarrow> Inl (KeyError name) | Some c \<Rightarrow> Inr c)"

section \<open>The separator detector (routers/graph.py)\<close>

text \<open>\<^verbatim>\<open>np.diff(t)\<close>: the differences \<open>t[i+1] - t[i]\<close>.\<close>

definition np_diff :: "real list \<Rightarrow> real list" where
  "np_diff t = map (\<lambda>(a, b). b - a) (zip t (tl t))"

text \<open>\<^verbatim>\<open>a[mask]\<close>: the elements of \<open>a\<close> at the positions where the mask is true.\<close>

definition mask_select :: "'a list \<Rightarrow> bool list \<Rightarrow> 'a list" where
  "mask_select a bs = map fst (filter snd (zip a bs))"

text \<open>
  \<^verbatim>\<open>
  t = df["time"].sort_values().to_numpy()
  if t.size < 2:
      return []
  diffs = np.diff(t)
  gaps = t[1:][diffs > gap_threshold]
  return gaps.tolist()
  \<close>
\<close>

definition detect_separators :: "real dataframe \<Rightarrow> real \<Rightarrow> py_error + real list" where
  "detect_separators df gap_threshold =
     (case getitem df ''time'' of
        Inl e \<Rightarrow> Inl e
      | Inr col \<Rightarrow>
          (let t = sort col in
           if length t < 2 then Inr []
           else
             (let diffs = np_diff t;
                  gaps = mask_select (tl t) (map (\<lambda>d. d > gap_threshold) diffs)
              in Inr gaps)))"


subsection \<open>The selected values, one adjacent pair at a time\<close>

lemma gaps_step:
  "mask_select (tl (x # y # ys)) (map (\<lambda>d. d > thr) (np_diff (x # y # ys))) =
     (if y - x > thr then [y] else []) @
     mask_select (tl (y # ys)) (map (\<lambda>d. d > thr) (np_diff (y # ys)))"
  by (simp add: mask_select_def np_diff_def)

lemma gaps_index:
  "mask_select (tl t) (map (\<lambda>d. d > thr) (np_diff t)) =
     [t ! Suc i. i \<leftarrow> [0..<length t - 1], t ! Suc i - t ! i > thr]"
proof (induction t rule: induct_list012)
  case 1
  show ?case by (simp add: mask_select_def np_diff_def)
next
  case (2 x)
  show ?case by (simp add: mask_select_def np_diff_def)
next
  case (3 x y ys)
  have "[0..<length (x # y # ys) - 1] = 0 # map Suc [0..<length (y # ys) - 1]"
    by (simp add: upt_conv_Cons map_Suc_upt del: upt_Suc)
  then show ?case
    using 3 by (simp only: gaps_step) (simp add: comp_def del: upt_Suc cong: if_cong)
qed

lemma gaps_above:
  "sorted (y # ys) \<Longrightarrow> 0 < thr \<Longrightarrow>
     \<forall>z \<in> set (mask_select (tl (y # ys)) (map (\<lambda>d. d > thr) (np_diff (y # ys)))). y < z"
proof (induction ys arbitrary: y)
  case Nil
  show ?case by (simp add: mask_select_def np_diff_def)
next
  case (Cons a ys)
  have "\<forall>z \<in> set (mask_select (tl (a # ys)) (map (\<lambda>d. d > thr) (np_diff (a # ys)))). a < z"
    using Cons by simp
  moreover have "y \<le> a" using Cons.prems by simp
  ultimately show ?case
    using Cons.prems by (simp only: gaps_step) force
qed

lemma gaps_strict:
  "sorted t \<Longrightarrow> 0 < thr \<Longrightarrow>
     sorted_wrt (<) (mask_select (tl t) (map (\<lambda>d. d > thr) (np_diff t)))"
proof (induction t rule: induct_list012)
  case 1
  show ?case by (simp add: mask_select_def np_diff_def)
next
  case (2 x)
  show ?case by (simp add: mask_select_def np_diff_def)
next
  case (3 x y ys)
  have "sorted (y # ys)" using 3 by simp
  then show ?case
    using 3 gaps_above[of y ys thr] by (simp only: gaps_step) (auto simp: sorted_wrt_append)
qed



lemma detect_separators_unfold:
  "getitem df ''time'' = Inr ts \<Longrightarrow>
     detect_separators df thr =
       Inr (mask_select (tl (sort ts)) (map (\<lambda>d. d > thr) (np_diff (sort ts))))"
proof (cases "length ts < 2")
  case True
  assume "getitem df ''time'' = Inr ts"
  moreover from True have "length (sort ts) - 1 = 0" by simp
  then have "mask_select (tl (sort ts)) (map (\<lambda>d. d > thr) (np_diff (sort ts))) = []"
    by (simp only: gaps_index) simp
  ultimately show ?thesis using True by (simp add: detect_separators_def)
next
  case False
  assume "getitem df ''time'' = Inr ts"
  then show ?thesis using False by (simp add: detect_separators_def Let_def)
qed

subsection \<open>What the detector returns\<close>



text \<open>
  Claim C2. The comparison is strict: when every gap between consecutive sorted values is
  less than or equal to the threshold (equality included), the detector returns the empty
  list; the time values 0, 20 with threshold 20 give the empty list.
\<close>

theorem detect_separators_no_gap:
  "(getitem df ''time'' = Inr ts \<and>
    (\<forall>i. i + 1 < length ts \<longrightarrow> sort ts ! (i + 1) - sort ts ! i \<le> thr) \<longrightarrow>
      detect_separators df thr = Inr [])
   \<and> detect_separators [(''time'', [0, 20]), (''flux'', [1, 1])] 20 = Inr []"
proof -
  have ex: "detect_separators [(''time'', [0, 20]), (''flux'', [1, 1])] 20 = Inr []"
    by (simp add: detect_separators_def getitem_def np_diff_def mask_select_def)
  have gen: "detect_separators df thr = Inr []"
    if h: "getitem df ''time'' = Inr ts"
      and g: "\<forall>i. i + 1 < length ts \<longrightarrow> sort ts ! (i + 1) - sort ts ! i \<le> thr"
  proof -
    have "\<not> sort ts ! Suc i - sort ts ! i > thr" if "i \<in> set [0..<length (sort ts) - 1]" for i
    proof -
      from that have "i + 1 < length ts" by simp
      with g have "sort ts ! (i + 1) - sort ts ! i \<le> thr" by blast
      then show ?thesis by simp
    qed
    then have "[sort ts ! Suc i. i \<leftarrow> [0..<length (sort ts) - 1], sort ts ! Suc i - sort ts ! i > thr] = []"
      by simp
    then show ?thesis
      using detect_separators_unfold[OF h, of thr] by (simp only: gaps_index)
  qed
  show ?thesis using ex gen by blast
qed

text \<open>The statement at an unsorted column whose sorted gaps are both exactly the threshold.\<close>

theorem detect_separators_no_gap_witness:
  "getitem [(''time'', [12, 2, 7]), (''flux'', [1, 1, 1])] ''time'' = Inr [12, 2, 7]
   \<and> detect_separators [(''time'', [12, 2, 7]), (''flux'', [1, 1, 1])] 5 = Inr []"
proof -
  have "\<forall>i. i + 1 < length [12, 2, 7 :: real] \<longrightarrow>
          sort [12, 2, 7 :: real] ! (i + 1) - sort [12, 2, 7] ! i \<le> 5"
    by (simp add: nth_Cons' less_Suc_eq)
  then show ?thesis
    using detect_separators_no_gap[where df = "[(''time'', [12, 2, 7]), (''flux'', [1, 1, 1])]"
      and ts = "[12, 2, 7]" and thr = 5]
    by (simp add: getitem_def)
qed

text \<open>
  Claim C3. The detector gives the same result on two frames whose time columns are
  permutations of each other (it sorts the column itself); the unsorted time values
  35, 0, 30, 5 with threshold 20 give the single value 30, as the sorted ones do.
\<close>

theorem detect_separators_permutation:
  "(getitem df ''time'' = Inr ts \<and> getitem df' ''time'' = Inr ts' \<and> mset ts = mset ts' \<longrightarrow>
      detect_separators df thr = detect_separators df' thr)
   \<and> detect_separators [(''time'', [35, 0, 30, 5]), (''flux'', [1, 1, 1, 1])] 20 = Inr [30]
   \<and> detect_separators [(''time'', [0, 5, 30, 35]), (''flux'', [1, 1, 1, 1])] 20 = Inr [30]"
proof -
  have ex: "detect_separators [(''time'', [35, 0, 30, 5]), (''flux'', [1, 1, 1, 1])] 20 = Inr [30]"
    "detect_separators [(''time'', [0, 5, 30, 35]), (''flux'', [1, 1, 1, 1])] 20 = Inr [30]"
    by (simp_all add: detect_separators_def getitem_def np_diff_def mask_select_def)
  have gen: "detect_separators df thr = detect_separators df' thr"
    if h: "getitem df ''time'' = Inr ts" and h': "getitem df' ''time'' = Inr ts'"
      and m: "mset ts = mset ts'"
  proof -
    have "sort ts = sort ts'"
      using m by (intro properties_for_sort) simp_all
    then show ?thesis
      using detect_separators_unfold[OF h, of thr] detect_separators_unfold[OF h', of thr]
      by simp
  qed
  show ?thesis using ex gen by blast
qed

text \<open>The statement at two frames that list the same three time values in different orders.\<close>

theorem detect_separators_permutation_witness:
  "getitem [(''time'', [3, 50, 1]), (''flux'', [1, 2, 3])] ''time'' = Inr [3, 50, 1]
   \<and> getitem [(''flux'', [9, 9, 9]), (''time'', [50, 1, 3])] ''time'' = Inr [50, 1, 3]
   \<and> mset [3, 50, 1 :: real] = mset [50, 1, 3]
   \<and> detect_separators [(''time'', [3, 50, 1]), (''flux'', [1, 2, 3])] 10
       = detect_separators [(''flux'', [9, 9, 9]), (''time'', [50, 1, 3])] 10"
  using detect_separators_permutation[where df = "[(''time'', [3, 50, 1]), (''flux'', [1, 2, 3])]"
      and ts = "[3, 50, 1]" and df' = "[(''flux'', [9, 9, 9]), (''time'', [50, 1, 3])]"
      and ts' = "[50, 1, 3]" and thr = 10]
  by (simp add: getitem_def)

text \<open>
  Claim C9. For a strictly positive threshold the detector's output is strictly increasing,
  hence free of duplicates, also when the time column holds duplicate values.
\<close>

theorem detect_separators_strictly_increasing:
  "getitem df ''time'' = Inr ts \<Longrightarrow> 0 < thr \<Longrightarrow>
     \<exists>out. detect_separators df thr = Inr out \<and> sorted_wrt (<) out \<and> distinct out"
proof -
  assume h: "getitem df ''time'' = Inr ts" and p: "0 < thr"
  have "sorted_wrt (<) (mask_select (tl (sort ts)) (map (\<lambda>d. d > thr) (np_diff (sort ts))))"
    using p by (intro gaps_strict) simp_all
  then show ?thesis
    using detect_separators_unfold[OF h, of thr] strict_sorted_iff by auto
qed

text \<open>The statement at a column in which both 30 and 60 occur twice.\<close>

theorem detect_separators_strictly_increasing_witness:
  "getitem [(''time'', [30, 0, 60, 30, 60]), (''flux'', [1, 1, 1, 1, 1])] ''time'' = Inr [30, 0, 60, 30, 60]
   \<and> (0::real) < 20
   \<and> (\<exists>out. detect_separators [(''time'', [30, 0, 60, 30, 60]), (''flux'', [1, 1, 1, 1, 1])] 20 = Inr out
         \<and> sorted_wrt (<) out \<and> distinct out)"
  using detect_separators_strictly_increasing[where df = "[(''time'', [30, 0, 60, 30, 60]), (''flux'', [1, 1, 1, 1, 1])]"
      and ts = "[30, 0, 60, 30, 60]" and thr = 20]
  by (simp add: getitem_def)

section \<open>The tolerant numeric-list parser (routers/graph.py)\<close>

text \<open>
  Strings are lists of characters with code points below 256; among those the class
  \<^verbatim>\<open>\d\<close> of Python's \<^verbatim>\<open>re\<close> holds exactly the ten ASCII digits.
\<close>

definition is_digit :: "char \<Rightarrow> bool" where
  "is_digit c = (c \<in> set ''0123456789'')"

definition is_sign :: "char \<Rightarrow> bool" where
  "is_sign c = (c = CHR ''+'' \<or> c = CHR ''-'')"

text \<open>
  A match of \<^verbatim>\<open>\d+(?:\.\d+)?\<close> at the start of a string: the matched text and the rest
  of the string, or \<open>None\<close> when the pattern does not match there. The quantifiers are
  greedy: all the digits are taken, then a point and all the digits after it when at least
  one digit follows the point. Giving digits back never turns a failure into a match,
  since everything after the first digits is optional.
\<close>

definition match_unsigned :: "string \<Rightarrow> (string \<times> string) option" where
  "match_unsigned s =
     (let ds = takeWhile is_digit s;
          r2 = dropWhile is_digit s
      in if ds = [] then None
         else (case r2 of
                 [] \<Rightarrow> Some (ds, r2)
               | c # r3 \<Rightarrow>
                   if c = CHR ''.'' \<and> takeWhile is_digit r3 \<noteq> []
                   then Some (ds @ [c] @ takeWhile is_digit r3, dropWhile is_digit r3)
                   else Some (ds, r2)))"

text \<open>
  A match of the whole pattern \<^verbatim>\<open>[+-]?\d+(?:\.\d+)?\<close> at the start of a string. A sign is
  taken when there is one; when no digit follows it there is no match at this place
  (without the sign the digits would have to start at the sign itself).
\<close>

definition match_number :: "string \<Rightarrow> (string \<times> string) option" where
  "match_number s =
     (case s of
        [] \<Rightarrow> None
      | c # r \<Rightarrow>
          if is_sign c then map_option (\<lambda>(m, rest). (c # m, rest)) (match_unsigned r)
          else match_unsigned s)"

lemma match_unsigned_split:
  "match_unsigned s = Some (m, r) \<Longrightarrow> s = m @ r \<and> m \<noteq> []"
proof -
  assume a: "match_unsigned s = Some (m, r)"
  have id: "takeWhile is_digit s @ dropWhile is_digit s = s" by simp
  have ne: "takeWhile is_digit s \<noteq> []"
    using a by (auto simp: match_unsigned_def Let_def)
  show ?thesis
  proof (cases "dropWhile is_digit s")
    case Nil
    have "match_unsigned s = Some (takeWhile is_digit s, [])"
      by (simp add: match_unsigned_def Let_def Nil ne)
    with a have "m = takeWhile is_digit s" "r = []" by simp_all
    moreover have "s = takeWhile is_digit s @ []" using id by (simp only: Nil)
    ultimately show ?thesis using ne by simp
  next
    case (Cons c r3)
    have id3: "takeWhile is_digit r3 @ dropWhile is_digit r3 = r3" by simp
    show ?thesis
    proof (cases "c = CHR ''.'' \<and> takeWhile is_digit r3 \<noteq> []")
      case True
      have "match_unsigned s =
              Some (takeWhile is_digit s @ [c] @ takeWhile is_digit r3, dropWhile is_digit r3)"
        using True by (simp add: match_unsigned_def Let_def Cons ne)
      with a have m: "m = takeWhile is_digit s @ [c] @ takeWhile is_digit r3"
        and r: "r = dropWhile is_digit r3" by simp_all
      have "s = takeWhile is_digit s @ c # r3" using id by (simp only: Cons)
      also have "\<dots> = takeWhile is_digit s @ c # (takeWhile is_digit r3 @ dropWhile is_digit r3)"
        by (simp only: id3)
      finally show ?thesis using m r by simp
    next
      case False
      have "match_unsigned s = Some (takeWhile is_digit s, c # r3)"
        using False by (auto simp: match_unsigned_def Let_def Cons ne)
      with a have "m = takeWhile is_digit s" "r = c # r3" by simp_all
      moreover have "s = takeWhile is_digit s @ c # r3" using id by (simp only: Cons)
      ultimately show ?thesis using ne by simp
    qed
  qed
qed

lemma match_number_split:
  "match_number s = Some (m, r) \<Longrightarrow> s = m @ r \<and> m \<noteq> []"
  by (cases s) (auto simp: match_number_def split: if_splits dest: match_unsigned_split)

text \<open>
  The scan of \<^verbatim>\<open>re.finditer\<close>: from left to right, each match with the offset where it
  starts; after a match the scan goes on behind it, and where the pattern does not match
  it moves one character on. The first argument is the offset of the string's first
  character.
\<close>

function scan :: "nat \<Rightarrow> string \<Rightarrow> (nat \<times> string) list" where
  "scan i [] = []"
| "scan i (c # cs) =
     (case match_number (c # cs) of
        None \<Rightarrow> scan (Suc i) cs
      | Some (m, rest) \<Rightarrow> (i, m) # scan (i + length m) rest)"
  by pat_completeness auto
termination
proof (relation "measure (\<lambda>(i, s). length s)")
  show "wf (measure (\<lambda>(i, s). length s))" by simp
next
  fix i :: nat and c cs
  show "((Suc i, cs), (i, c # cs)) \<in> measure (\<lambda>(i, s). length s)" by simp
next
  fix i :: nat and c cs x2 m rest
  assume "match_number (c # cs) = Some x2" and "(m, rest) = x2"
  then have "c # cs = m @ rest \<and> m \<noteq> []"
    using match_number_split[of "c # cs" m rest] by simp
  then have "length rest < length (c # cs)"
    by (metis length_append length_greater_0_conv less_add_same_cancel2)
  then show "((i + length m, rest), (i, c # cs)) \<in> measure (\<lambda>(i, s). length s)" by simp
qed

definition finditer :: "string \<Rightarrow> (nat \<times> string) list" where
  "finditer s = scan 0 s"

text \<open>\<^verbatim>\<open>re.findall\<close>: the matched texts, in the order of the scan.\<close>

definition findall :: "string \<Rightarrow> string list" where
  "findall s = map snd (finditer s)"

text \<open>
  \<^verbatim>\<open>float(x)\<close> on a decimal literal: an optional sign, digits, and optionally a point and
  digits, with at least one digit in all. The value is the literal's exact decimal value
  (rounding to a double is outside the model). \<open>None\<close> stands for \<^verbatim>\<open>ValueError\<close>;
  the other spellings Python accepts (exponents, underscores, blanks, \<^verbatim>\<open>inf\<close>,
  \<^verbatim>\<open>nan\<close>) never come out of the pattern above and are not modelled.
\<close>

definition digit_val :: "char \<Rightarrow> nat" where
  "digit_val c = of_char c - 48"

definition digits_val :: "string \<Rightarrow> nat" where
  "digits_val ds = foldl (\<lambda>a c. 10 * a + digit_val c) 0 ds"

definition py_float :: "string \<Rightarrow> real option" where
  "py_float x =
     (let (neg, body) = (case x of
                           [] \<Rightarrow> (False, x)
                         | c # r \<Rightarrow> if c = CHR ''-'' then (True, r)
                                    else if c = CHR ''+'' then (False, r) else (False, x));
          ip = takeWhile (\<lambda>c. c \<noteq> CHR ''.'') body;
          fp = drop 1 (dropWhile (\<lambda>c. c \<noteq> CHR ''.'') body)
      in if list_all is_digit ip \<and> list_all is_digit fp \<and> (ip \<noteq> [] \<or> fp \<noteq> [])
         then Some ((if neg then - 1 else 1) *
                    (real (digits_val ip) + real (digits_val fp) / 10 ^ length fp))
         else None)"

text \<open>\<^verbatim>\<open>s.replace(",", " ")\<close>\<close>

definition replace_commas :: "string \<Rightarrow> string" where
  "replace_commas s = map (\<lambda>c. if c = CHR '','' then CHR '' '' else c) s"

text \<open>
  \<^verbatim>\<open>
  if not s:
      return []
  s = s.replace(",", " ")
  nums = re.findall(r"[+-]?\d+(?:\.\d+)?", s)
  try:
      return [float(x) for x in nums]
  except Exception:
      return []
  \<close>
  The argument is \<open>None\<close> when the form field is absent.
\<close>

definition parse_separators :: "string option \<Rightarrow> real list" where
  "parse_separators s =
     (case s of
        None \<Rightarrow> []
      | Some s \<Rightarrow>
          if s = [] then []
          else
            (let s = replace_commas s;
                 nums = findall s
             in case those (map py_float nums) of
                  Some xs \<Rightarrow> xs
                | None \<Rightarrow> []))"

subsection \<open>Numbers between separators\<close>




lemma digit_not_sign: "is_digit c \<Longrightarrow> \<not> is_sign c"
  by (auto simp: is_digit_def is_sign_def)

lemma point_not_digit: "\<not> is_digit (CHR ''.'')"
  by (simp add: is_digit_def)


lemma takeWhile_all: "list_all is_digit (takeWhile is_digit s)"
  by (auto simp: list_all_iff dest: set_takeWhileD)

text \<open>The shape of a match: digits, then nothing or a point and digits.\<close>

definition unsigned_shape :: "string \<Rightarrow> string \<Rightarrow> bool" where
  "unsigned_shape ds fr =
     (ds \<noteq> [] \<and> list_all is_digit ds \<and>
      (fr = [] \<or> (\<exists>fs. fr = CHR ''.'' # fs \<and> fs \<noteq> [] \<and> list_all is_digit fs)))"

lemma match_unsigned_shape:
  assumes a: "match_unsigned s = Some (m, r)"
  shows "\<exists>ds fr. m = ds @ fr \<and> unsigned_shape ds fr"
proof -
  have ne: "takeWhile is_digit s \<noteq> []"
    using a by (auto simp: match_unsigned_def Let_def)
  show ?thesis
  proof (cases "dropWhile is_digit s")
    case Nil
    have "match_unsigned s = Some (takeWhile is_digit s, [])"
      by (simp add: match_unsigned_def Let_def Nil ne)
    with a have "m = takeWhile is_digit s @ []" by simp
    moreover have "unsigned_shape (takeWhile is_digit s) []"
      using ne takeWhile_all by (simp add: unsigned_shape_def)
    ultimately show ?thesis by blast
  next
    case (Cons c r3)
    show ?thesis
    proof (cases "c = CHR ''.'' \<and> takeWhile is_digit r3 \<noteq> []")
      case True
      have "match_unsigned s =
              Some (takeWhile is_digit s @ [c] @ takeWhile is_digit r3, dropWhile is_digit r3)"
        using True by (simp add: match_unsigned_def Let_def Cons ne)
      with a True have "m = takeWhile is_digit s @ (CHR ''.'' # takeWhile is_digit r3)" by simp
      moreover have "unsigned_shape (takeWhile is_digit s) (CHR ''.'' # takeWhile is_digit r3)"
        using ne True takeWhile_all by (simp add: unsigned_shape_def)
      ultimately show ?thesis by blast
    next
      case False
      have "match_unsigned s = Some (takeWhile is_digit s, c # r3)"
        using False by (auto simp: match_unsigned_def Let_def Cons ne)
      with a have "m = takeWhile is_digit s @ []" by simp
      moreover have "unsigned_shape (takeWhile is_digit s) []"
        using ne takeWhile_all by (simp add: unsigned_shape_def)
      ultimately show ?thesis by blast
    qed
  qed
qed


lemma match_number_Cons:
  "match_number (c # r) =
     (if is_sign c then map_option (\<lambda>(m, rest). (c # m, rest)) (match_unsigned r)
      else match_unsigned (c # r))"
  by (simp add: match_number_def)







lemma digits_not_point: "list_all is_digit ds \<Longrightarrow> CHR ''.'' \<notin> set ds"
  using point_not_digit by (auto simp: list_all_iff)

lemma py_float_unsigned:
  assumes sh: "unsigned_shape ds fr"
  shows "\<exists>v. py_float (ds @ fr) = Some v \<and> py_float (CHR ''+'' # ds @ fr) = Some v
            \<and> py_float (CHR ''-'' # ds @ fr) = Some (- v)"
proof -
  have ds: "ds \<noteq> []" "list_all is_digit ds" using sh by (simp_all add: unsigned_shape_def)
  obtain d ds' where dd: "ds = d # ds'" using ds(1) by (cases ds) auto
  have d: "d \<noteq> CHR ''-''" "d \<noteq> CHR ''+''"
    using ds(2) dd digit_not_sign[of d] by (auto simp: is_sign_def)
  have np: "\<forall>c \<in> set ds. c \<noteq> CHR ''.''" using digits_not_point[OF ds(2)] by auto
  have ip: "takeWhile (\<lambda>c. c \<noteq> CHR ''.'') (ds @ fr) = ds"
    and dp: "dropWhile (\<lambda>c. c \<noteq> CHR ''.'') (ds @ fr) = fr"
  proof -
    have "fr = [] \<or> hd fr = CHR ''.''" using sh by (auto simp: unsigned_shape_def)
    then show "takeWhile (\<lambda>c. c \<noteq> CHR ''.'') (ds @ fr) = ds"
      "dropWhile (\<lambda>c. c \<noteq> CHR ''.'') (ds @ fr) = fr"
      using np by (cases fr; simp add: takeWhile_append2 dropWhile_append2)+
  qed
  have fp: "list_all is_digit (drop (Suc 0) fr)"
    using sh by (auto simp: unsigned_shape_def)
  have hd: "(case ds @ fr of [] \<Rightarrow> (False, ds @ fr)
       | c # r \<Rightarrow> if c = CHR ''-'' then (True, r)
                  else if c = CHR ''+'' then (False, r) else (False, ds @ fr)) = (False, ds @ fr)"
    using dd d by simp
  show ?thesis
    unfolding py_float_def
    by (simp only: hd list.case if_True if_False char.inject) (simp add: ip dp ds fp Let_def)
qed

lemma match_number_float:
  assumes a: "match_number s = Some (m, r)"
  shows "\<exists>v. py_float m = Some v"
proof -
  from a obtain c cs where s: "s = c # cs" by (cases s) (auto simp: match_number_def)
  show ?thesis
  proof (cases "is_sign c")
    case True
    with a s obtain u where u: "match_unsigned cs = Some (u, r)" "m = c # u"
      by (auto simp: match_number_Cons)
    from match_unsigned_shape[OF u(1)] obtain ds fr where sh: "u = ds @ fr" "unsigned_shape ds fr"
      by blast
    show ?thesis
      using py_float_unsigned[OF sh(2)] True u(2) sh(1) by (auto simp: is_sign_def)
  next
    case False
    with a s have u: "match_unsigned s = Some (m, r)" by (simp add: match_number_Cons)
    from match_unsigned_shape[OF u] obtain ds fr where sh: "m = ds @ fr" "unsigned_shape ds fr"
      by blast
    show ?thesis using py_float_unsigned[OF sh(2)] sh(1) by auto
  qed
qed


lemma scan_floats: "\<forall>(j, m) \<in> set (scan i s). py_float m \<noteq> None"
proof (induction i s rule: scan.induct)
  case (1 i)
  show ?case by simp
next
  case (2 i c cs)
  show ?case
  proof (cases "match_number (c # cs)")
    case None
    then show ?thesis using 2(1) by simp
  next
    case (Some p)
    obtain m rest where p: "p = (m, rest)" by (cases p)
    have "py_float m \<noteq> None" using match_number_float[of "c # cs" m rest] Some p by auto
    then show ?thesis using 2(2)[OF Some p[symmetric]] Some p by simp
  qed
qed

lemma those_map_total:
  "\<forall>x \<in> set xs. f x \<noteq> None \<Longrightarrow> those (map f xs) = Some (map (\<lambda>x. the (f x)) xs)"
  by (induction xs) auto

lemma findall_floats:
  "those (map py_float (findall s)) = Some (map (\<lambda>m. the (py_float m)) (findall s))"
  using scan_floats[of 0 s] by (intro those_map_total) (auto simp: findall_def finditer_def)

lemma parse_separators_findall:
  "s \<noteq> [] \<Longrightarrow>
     map Some (parse_separators (Some s)) = map py_float (findall (replace_commas s))"
proof -
  assume ne: "s \<noteq> []"
  have fl: "\<forall>m \<in> set (findall (replace_commas s)). py_float m \<noteq> None"
    using scan_floats[of 0 "replace_commas s"] by (auto simp: findall_def finditer_def)
  have "parse_separators (Some s) = map (\<lambda>m. the (py_float m)) (findall (replace_commas s))"
    using ne by (simp add: parse_separators_def Let_def findall_floats)
  then show ?thesis using fl by auto
qed

text \<open>The matches of a scan stand in the string, one behind the other.\<close>

lemma scan_bounds:
  "\<forall>(j, m) \<in> set (scan i s). i \<le> j \<and> j + length m \<le> i + length s
       \<and> take (length m) (drop (j - i) s) = m"
proof (induction i s rule: scan.induct)
  case (1 i)
  show ?case by simp
next
  case (2 i c cs)
  show ?case
  proof (cases "match_number (c # cs)")
    case None
    have "Suc i \<le> j \<and> j + length m \<le> Suc i + length cs \<and> take (length m) (drop (j - Suc i) cs) = m
          \<Longrightarrow> i \<le> j \<and> j + length m \<le> i + length (c # cs)
              \<and> take (length m) (drop (j - i) (c # cs)) = m" for j m
      by (auto simp: Suc_diff_le drop_Cons' split: if_splits)
    then show ?thesis using 2(1)[OF None] None by auto
  next
    case (Some p)
    obtain m rest where p: "p = (m, rest)" by (cases p)
    have sp: "c # cs = m @ rest" "m \<noteq> []"
      using match_number_split[of "c # cs" m rest] Some p by auto
    have step: "i + length m \<le> j \<and> j + length n \<le> i + length m + length rest
            \<and> take (length n) (drop (j - (i + length m)) rest) = n
          \<Longrightarrow> i \<le> j \<and> j + length n \<le> i + length (c # cs)
              \<and> take (length n) (drop (j - i) (c # cs)) = n" for j n
    proof -
      assume h: "i + length m \<le> j \<and> j + length n \<le> i + length m + length rest
            \<and> take (length n) (drop (j - (i + length m)) rest) = n"
      have "length m \<le> j - i" using h by linarith
      then have "drop (j - i) (m @ rest) = drop (j - (i + length m)) rest"
        by simp
      then show ?thesis using h sp(1) by (simp del: length_Cons)
    qed
    have here: "take (length m) (drop (i - i) (c # cs)) = m" using sp(1) by simp
    have len: "i + length m \<le> i + length (c # cs)" using sp(1) by (metis length_append le_add1 nat_add_left_cancel_le)
    show ?thesis
      using 2(2)[OF Some p[symmetric]] Some p step here len by (auto simp del: length_Cons)
  qed
qed

lemma scan_ordered:
  "sorted_wrt (\<lambda>(j, m) (k, n). j + length m \<le> k) (scan i s)"
proof (induction i s rule: scan.induct)
  case (1 i)
  show ?case by simp
next
  case (2 i c cs)
  show ?case
  proof (cases "match_number (c # cs)")
    case None
    then show ?thesis using 2(1) by simp
  next
    case (Some p)
    obtain m rest where p: "p = (m, rest)" by (cases p)
    have "\<forall>(k, n) \<in> set (scan (i + length m) rest). i + length m \<le> k"
      using scan_bounds[of "i + length m" rest] by auto
    then show ?thesis using 2(2)[OF Some p[symmetric]] Some p by auto
  qed
qed






subsection \<open>What the parser returns\<close>



section \<open>Request handlers\<close>

subsection \<open>Exceptions, effects and sequencing\<close>

text \<open>
  What a \<^verbatim>\<open>try\<close> body can raise: FastAPI's \<^verbatim>\<open>HTTPException\<close> with its status code and
  detail, or any other exception, kept as its message \<^verbatim>\<open>str(e)\<close>.
\<close>

datatype raised = HTTPException nat string | OtherException string

text \<open>
  The effects of a handler that the claims speak of, in the order they happen: the CSV
  reader runs, the separator detector is called with a threshold, a temporary file with a
  suffix is created, the output is written into it, the upload is closed.
\<close>

record figure =
  points :: "(real \<times> real) list"
  fig_title :: string
  fig_xlabel :: string
  fig_ylabel :: string
  vlines :: "(real \<times> string) list"
  vline_color :: string

datatype event =
    ReadCsv
  | DetectSeparators real
  | TempFile string
  | SaveFig figure
  | ToCsv
  | CloseUpload

text \<open>A computation: what it raises or returns, and the effects it had until then.\<close>

type_synonym 'a comp = "(raised + 'a) \<times> event list"

definition ret :: "'a \<Rightarrow> 'a comp" where
  "ret a = (Inr a, [])"

definition raise :: "raised \<Rightarrow> 'a comp" where
  "raise e = (Inl e, [])"

definition emit :: "event \<Rightarrow> unit comp" where
  "emit ev = (Inr (), [ev])"

text \<open>One statement after the other: an exception ends the sequence, the effects add up.\<close>

definition bind :: "'a comp \<Rightarrow> ('a \<Rightarrow> 'b comp) \<Rightarrow> 'b comp" where
  "bind m f =
     (case m of
        (Inl e, t) \<Rightarrow> (Inl e, t)
      | (Inr a, t) \<Rightarrow> (case f a of (r, t') \<Rightarrow> (r, t @ t')))"

text \<open>Decimal digits of a natural number, as \<^verbatim>\<open>str\<close> and f-strings print it.\<close>

fun str_nat :: "nat \<Rightarrow> string" where
  "str_nat n =
     (if n < 10 then [''0123456789'' ! n]
      else str_nat (n div 10) @ [''0123456789'' ! (n mod 10)])"

declare str_nat.simps [simp del]

text \<open>\<^verbatim>\<open>str(e)\<close> of the exceptions the frame operations raise.\<close>

fun str_error :: "py_error \<Rightarrow> string" where
  "str_error (KeyError k) = [CHR 0x27] @ k @ [CHR 0x27]"
| "str_error (IndexError msg) = msg"
| "str_error (ValueError msg) = msg"

definition lift_py :: "py_error + 'a \<Rightarrow> 'a comp" where
  "lift_py r = (case r of Inl e \<Rightarrow> raise (OtherException (str_error e)) | Inr a \<Rightarrow> ret a)"

text \<open>A call into a library that either raises, with a message, or returns.\<close>

definition lift_lib :: "string + 'a \<Rightarrow> 'a comp" where
  "lift_lib r = (case r of Inl msg \<Rightarrow> raise (OtherException msg) | Inr a \<Rightarrow> ret a)"

text \<open>
  An uploaded file: its name, and what \<^verbatim>\<open>pd.read_csv\<close> makes of its content, the frame
  or the message of the exception the reader raises. The reader itself is pandas' and is
  not modelled.
\<close>

record 'v upload_file =
  filename :: string
  read_csv :: "string + 'v dataframe"

record 'b file_response =
  body :: 'b
  media_type :: string
  download_name :: string

definition endswith :: "string \<Rightarrow> string \<Rightarrow> bool" where
  "endswith s suf = suffix suf s"

text \<open>A form field with a default: \<^verbatim>\<open>Form(default)\<close> gives the default when the field is absent.\<close>

definition form_default :: "'a \<Rightarrow> 'a option \<Rightarrow> 'a" where
  "form_default d v = (case v of None \<Rightarrow> d | Some x \<Rightarrow> x)"

text \<open>
  \<^verbatim>\<open>except HTTPException: raise\<close> and
  \<^verbatim>\<open>except Exception as e: raise HTTPException(status_code=500, detail=prefix + str(e))\<close>,
  then \<^verbatim>\<open>finally: file.file.close()\<close>. A handler ends with an \<^verbatim>\<open>HTTPException\<close> or
  with its response.
\<close>

definition handle_errors :: "string \<Rightarrow> 'a comp \<Rightarrow> 'a comp" where
  "handle_errors pfx m =
     (case m of
        (Inl (HTTPException code d), t) \<Rightarrow> (Inl (HTTPException code d), t @ [CloseUpload])
      | (Inl (OtherException msg), t) \<Rightarrow> (Inl (HTTPException 500 (pfx @ msg)), t @ [CloseUpload])
      | (Inr a, t) \<Rightarrow> (Inr a, t @ [CloseUpload]))"

lemma bind_ret [simp]: "bind (ret a) f = f a"
  by (simp add: bind_def ret_def split: prod.splits)

lemma bind_raise [simp]: "bind (raise e) f = raise e"
  by (simp add: bind_def raise_def)

lemma lift_simps [simp]:
  "lift_lib (Inr a) = ret a" "lift_lib (Inl msg) = raise (OtherException msg)"
  "lift_py (Inr a) = ret a" "lift_py (Inl e) = raise (OtherException (str_error e))"
  by (simp_all add: lift_lib_def lift_py_def)

lemma handle_errors_simps [simp]:
  "handle_errors pfx (Inl (HTTPException code d), t) = (Inl (HTTPException code d), t @ [CloseUpload])"
  "handle_errors pfx (Inl (OtherException msg), t) = (Inl (HTTPException 500 (pfx @ msg)), t @ [CloseUpload])"
  "handle_errors pfx (Inr a, t) = (Inr a, t @ [CloseUpload])"
  by (simp_all add: handle_errors_def)

subsection \<open>The plot endpoint (routers/graph.py)\<close>

text \<open>
  \<^verbatim>\<open>df.sort_values(by).reset_index(drop=True)\<close>: the rows in ascending order of one
  column. Rows with equal keys keep their order here; pandas leaves their order open.
  All columns of a frame have the same length.
\<close>

definition sort_values :: "string \<Rightarrow> real dataframe \<Rightarrow> py_error + real dataframe" where
  "sort_values by df =
     (case getitem df by of
        Inl e \<Rightarrow> Inl e
      | Inr key \<Rightarrow>
          (let order = sort_key (\<lambda>i. key ! i) [0..<length key]
           in Inr (map (\<lambda>(name, c). (name, map (\<lambda>i. c ! i) order)) df)))"

text \<open>The form of the request; \<open>upload\<close> is the field \<^verbatim>\<open>file\<close>. An optional field is \<open>None\<close> when absent.\<close>

record graph_form =
  upload :: "real upload_file"
  title :: "string option"
  x_label :: "string option"
  y_label :: "string option"
  separators :: "string option"
  sep_color :: "string option"
  auto_gap_threshold :: "real option"

text \<open>
  What the handler asks matplotlib to draw: the scatter of time against flux, the title
  and the axis labels, and for the \<open>i\<close>-th separator, counted from 1 as
  \<^verbatim>\<open>enumerate(xs, start=1)\<close> does, a dashed vertical line at it with the label \<open>Qi\<close>.
\<close>

definition light_curve_figure :: "graph_form \<Rightarrow> real list \<Rightarrow> real list \<Rightarrow> real list \<Rightarrow> figure" where
  "light_curve_figure form time flux xs =
     \<lparr> points = zip time flux,
       fig_title = form_default ''Kepler Full-Mission Light Curve'' (title form),
       fig_xlabel = form_default ''Time [BKJD]'' (x_label form),
       fig_ylabel = form_default ''Relative Flux'' (y_label form),
       vlines = zip xs (map (\<lambda>i. ''Q'' @ str_nat i) [1..<Suc (length xs)]),
       vline_color = form_default ''black'' (sep_color form) \<rparr>"

text \<open>
  The handler. Matplotlib is a parameter: \<open>savefig\<close> takes the figure the handler
  describes and returns the image, or the message of the exception the plotting raises.
  \<^verbatim>\<open>
  if not file.filename.endswith(".csv"):
      raise HTTPException(status_code=400, detail="El archivo debe ser un CSV.")
  df = pd.read_csv(file.file)
  if not {"time", "flux"}.issubset(df.columns):
      raise HTTPException(status_code=400,
          detail="El CSV debe contener las columnas 'time' y 'flux'.")
  df = df.sort_values("time").reset_index(drop=True)
  xs = _parse_separators(separators)
  if not xs:
      xs = detect_separators(df, gap_threshold=float(auto_gap_threshold))
  tmp_png = tempfile.NamedTemporaryFile(delete=False, suffix=".png")
  ...
  plt.savefig(tmp_path, ...)
  return FileResponse(tmp_path, media_type="image/png",
                      filename="lightcurve_panorama.png", ...)
  \<close>
\<close>

definition csv_to_graph_try :: "(figure \<Rightarrow> string + 'png) \<Rightarrow> graph_form \<Rightarrow> 'png file_response comp" where
  "csv_to_graph_try savefig form =
     bind (if \<not> endswith (filename (upload form)) ''.csv''
           then raise (HTTPException 400 ''El archivo debe ser un CSV.'')
           else ret ()) (\<lambda>_.
     bind (emit ReadCsv) (\<lambda>_.
     bind (lift_lib (read_csv (upload form))) (\<lambda>df.
     bind (if \<not> {''time'', ''flux''} \<subseteq> set (columns df)
           then raise (HTTPException 400
                  ''El CSV debe contener las columnas 'time' y 'flux'.'')
           else ret ()) (\<lambda>_.
     bind (lift_py (sort_values ''time'' df)) (\<lambda>df.
     bind (let xs = parse_separators (separators form) in
           if xs = []
           then bind (emit (DetectSeparators (form_default 20 (auto_gap_threshold form)))) (\<lambda>_.
                  lift_py (detect_separators df (form_default 20 (auto_gap_threshold form))))
           else ret xs) (\<lambda>xs.
     bind (emit (TempFile ''.png'')) (\<lambda>_.
     bind (lift_py (getitem df ''time'')) (\<lambda>time.
     bind (lift_py (getitem df ''flux'')) (\<lambda>flux.
     (let fig = light_curve_figure form time flux xs in
     bind (emit (SaveFig fig)) (\<lambda>_.
     bind (lift_lib (savefig fig)) (\<lambda>png.
     ret \<lparr> body = png, media_type = ''image/png'',
           download_name = ''lightcurve_panorama.png'' \<rparr>))))))))))))"

definition csv_to_graph :: "(figure \<Rightarrow> string + 'png) \<Rightarrow> graph_form \<Rightarrow> 'png file_response comp" where
  "csv_to_graph savefig form =
     handle_errors ''Error al procesar el CSV: '' (csv_to_graph_try savefig form)"

subsection \<open>The prediction endpoint (routers/predict.py)\<close>

text \<open>
  A cell of a frame read from an arbitrary CSV: a number, a text, or nothing
  (pandas' \<^verbatim>\<open>NaN\<close> for an empty field).
\<close>

datatype cell = Num real | Str string | Missing

text \<open>\<^verbatim>\<open>len(df.index)\<close> for a frame that \<^verbatim>\<open>read_csv\<close> built.\<close>

definition nrows :: "'v dataframe \<Rightarrow> nat" where
  "nrows df = (case df of [] \<Rightarrow> 0 | (name, c) # rest \<Rightarrow> length c)"

text \<open>\<^verbatim>\<open>df[names]\<close>: the named columns, in the order of the names.\<close>

fun select_columns :: "'v dataframe \<Rightarrow> string list \<Rightarrow> py_error + 'v dataframe" where
  "select_columns df [] = Inr []"
| "select_columns df (c # cs) =
     (case getitem df c of
        Inl e \<Rightarrow> Inl e
      | Inr col \<Rightarrow>
          (case select_columns df cs of
             Inl e \<Rightarrow> Inl e
           | Inr rest \<Rightarrow> Inr ((c, col) # rest)))"

text \<open>
  \<^verbatim>\<open>df[name] = values\<close>: the values must be as many as the frame has rows; a column of
  that name is overwritten where it stands, and otherwise a new column is appended as the
  last one.
\<close>

definition setitem :: "'v dataframe \<Rightarrow> string \<Rightarrow> 'v list \<Rightarrow> py_error + 'v dataframe" where
  "setitem df name vals =
     (if df \<noteq> [] \<and> length vals \<noteq> nrows df
      then Inl (ValueError (''Length of values ('' @ str_nat (length vals) @
                  '') does not match length of index ('' @ str_nat (nrows df) @ '')''))
      else if name \<in> set (columns df)
      then Inr (map (\<lambda>(n, c). if n = name then (n, vals) else (n, c)) df)
      else Inr (df @ [(name, vals)]))"

text \<open>
  \<^verbatim>\<open>proba[:, 1]\<close> on the matrix of class probabilities, one row per sample: the second
  entry of every row; \<^verbatim>\<open>IndexError\<close> when the rows have fewer than two entries.
\<close>

definition second_column :: "real list list \<Rightarrow> py_error + real list" where
  "second_column proba =
     (if list_ex (\<lambda>row. length row < 2) proba
      then Inl (IndexError ''index 1 is out of bounds for axis 1'')
      else Inr (map (\<lambda>row. row ! 1) proba))"

text \<open>\<^verbatim>\<open>sep.join(xs)\<close>\<close>

fun join :: "string \<Rightarrow> string list \<Rightarrow> string" where
  "join sep [] = []"
| "join sep [x] = x"
| "join sep (x # y # ys) = x @ sep @ join sep (y # ys)"

text \<open>
  The model loaded from \<^verbatim>\<open>models/gradientboost_exoplanets.pkl\<close> is not part of the
  sources; the handler takes it as a parameter. \<open>feature_names_in\<close> is
  \<^verbatim>\<open>model.named_steps['imputer'].feature_names_in_\<close>, \<open>None\<close> when that access raises;
  \<open>predict_proba\<close> and \<open>predict\<close> return their arrays or the message of the exception
  they raise.
\<close>

record pipeline =
  feature_names_in :: "string list option"
  predict_proba :: "cell dataframe \<Rightarrow> string + real list list"
  predict :: "cell dataframe \<Rightarrow> string + cell list"


text \<open>
  \<^verbatim>\<open>
  if not file.filename.endswith(".csv"):
      raise HTTPException(status_code=400, detail="El archivo debe ser un CSV.")
  df = pd.read_csv(file.file)
  try:
      feature_names = model.named_steps['imputer'].feature_names_in_
  except Exception:
      raise HTTPException(status_code=500,
          detail="El modelo cargado no contiene 'imputer' en el pipeline.")
  missing = [c for c in feature_names if c not in df.columns]
  if missing:
      raise HTTPException(status_code=400,
          detail=f"Faltan columnas requeridas: {', '.join(missing)}")
  X_pred = df[list(feature_names)].copy()
  y_pred_proba = model.predict_proba(X_pred)[:, 1]
  y_pred = model.predict(X_pred)
  df["prob_confirme_planeta"] = y_pred_proba
  df["prediccion"] = y_pred
  tmp_file = tempfile.NamedTemporaryFile(delete=False, suffix=".csv")
  df.to_csv(tmp_file.name, index=False)
  return FileResponse(tmp_file.name, media_type="text/csv",
                      filename="predicciones_exoplanetas.csv", ...)
  \<close>
  The body of the response is the frame that \<^verbatim>\<open>to_csv\<close> writes, without the row index.
\<close>

definition predict_from_csv_try :: "pipeline \<Rightarrow> cell upload_file \<Rightarrow> cell dataframe file_response comp" where
  "predict_from_csv_try model f =
     bind (if \<not> endswith (filename f) ''.csv''
           then raise (HTTPException 400 ''El archivo debe ser un CSV.'')
           else ret ()) (\<lambda>_.
     bind (emit ReadCsv) (\<lambda>_.
     bind (lift_lib (read_csv f)) (\<lambda>df.
     bind (case feature_names_in model of
             None \<Rightarrow> raise (HTTPException 500
                        ''El modelo cargado no contiene 'imputer' en el pipeline.'')
           | Some names \<Rightarrow> ret names) (\<lambda>feature_names.
     (let missing = filter (\<lambda>c. c \<notin> set (columns df)) feature_names in
     bind (if missing \<noteq> []
           then raise (HTTPException 400
                  (''Faltan columnas requeridas: '' @ join '', '' missing))
           else ret ()) (\<lambda>_.
     bind (lift_py (select_columns df feature_names)) (\<lambda>X_pred.
     bind (lift_lib (predict_proba model X_pred)) (\<lambda>proba.
     bind (lift_py (second_column proba)) (\<lambda>y_pred_proba.
     bind (lift_lib (predict model X_pred)) (\<lambda>y_pred.
     bind (lift_py (setitem df ''prob_confirme_planeta'' (map Num y_pred_proba))) (\<lambda>df.
     bind (lift_py (setitem df ''prediccion'' y_pred)) (\<lambda>df.
     bind (emit (TempFile ''.csv'')) (\<lambda>_.
     bind (emit ToCsv) (\<lambda>_.
     ret \<lparr> body = df, media_type = ''text/csv'',
           download_name = ''predicciones_exoplanetas.csv'' \<rparr>))))))))))))))"

definition predict_from_csv :: "pipeline \<Rightarrow> cell upload_file \<Rightarrow> cell dataframe file_response comp" where
  "predict_from_csv model f =
     handle_errors (''Error en la predicci'' @ [CHR 0xF3] @ ''n: '') (predict_from_csv_try model f)"

subsection \<open>Frames with and without a column\<close>

lemma getitem_present:
  "name \<in> set (columns df) \<Longrightarrow> \<exists>c. getitem df name = Inr c"
  by (cases "map_of df name") (auto simp: getitem_def columns_def map_of_eq_None_iff)

lemma getitem_absent:
  "name \<notin> set (columns df) \<Longrightarrow> getitem df name = Inl (KeyError name)"
  by (cases "map_of df name") (auto simp: getitem_def columns_def map_of_eq_None_iff[symmetric])

lemma getitem_map_columns:
  "getitem (map (\<lambda>(name, c). (name, f c)) df) k = map_sum id f (getitem df k)"
  by (induction df) (auto simp: getitem_def)

lemma sort_values_present:
  "getitem df by = Inr key \<Longrightarrow>
     sort_values by df =
       Inr (map (\<lambda>(name, c). (name, map (\<lambda>i. c ! i) (sort_key (\<lambda>i. key ! i) [0..<length key]))) df)"
  by (simp add: sort_values_def)

lemma sort_reordered:
  "sort (map (\<lambda>i. key ! i) (sort_key (\<lambda>i. key ! i) [0..<length key])) = sort (key :: real list)"
proof -
  have "mset (map (\<lambda>i. key ! i) (sort_key (\<lambda>i. key ! i) [0..<length key]))
          = mset (map (\<lambda>i. key ! i) [0..<length key])"
    by simp
  also have "map (\<lambda>i. key ! i) [0..<length key] = key" by (rule map_nth)
  finally show ?thesis by (intro properties_for_sort) simp_all
qed

subsection \<open>Client errors of a computation\<close>




lemma fst_ret [simp]: "fst (ret a) = Inr b \<longleftrightarrow> a = b"
  by (auto simp: ret_def)

lemma fst_lift_lib [simp]: "fst (lift_lib r) = Inr b \<longleftrightarrow> r = Inr b"
  by (cases r) (auto simp: ret_def raise_def)

lemma fst_lift_py [simp]: "fst (lift_py r) = Inr b \<longleftrightarrow> r = Inr b"
  by (cases r) (auto simp: ret_def raise_def)



subsection \<open>The plot endpoint, path by path\<close>

lemma bind_Inr: "bind (Inr a, t) f = (case f a of (r, t') \<Rightarrow> (r, t @ t'))"
  by (simp add: bind_def)

lemma bind_Inl: "bind (Inl e, t) f = (Inl e, t)"
  by (simp add: bind_def)

lemmas run = ret_def raise_def emit_def lift_lib_def lift_py_def bind_Inr bind_Inl Let_def

lemma csv_to_graph_valid:
  assumes ok: "endswith (filename (upload form)) ''.csv''"
    and rd: "read_csv (upload form) = Inr df"
    and tm: "getitem df ''time'' = Inr ts"
    and fx: "getitem df ''flux'' = Inr fl"
  shows "csv_to_graph savefig form =
     (let thr = form_default 20 (auto_gap_threshold form);
          xs0 = parse_separators (separators form);
          order = sort_key (\<lambda>i. ts ! i) [0..<length ts];
          xs = (if xs0 = []
                then mask_select (tl (sort ts)) (map (\<lambda>d. d > thr) (np_diff (sort ts)))
                else xs0);
          fig = light_curve_figure form (map (\<lambda>i. ts ! i) order) (map (\<lambda>i. fl ! i) order) xs
      in ((case savefig fig of
             Inl msg \<Rightarrow> Inl (HTTPException 500 (''Error al procesar el CSV: '' @ msg))
           | Inr png \<Rightarrow> Inr \<lparr> body = png, media_type = ''image/png'',
                              download_name = ''lightcurve_panorama.png'' \<rparr>),
          [ReadCsv] @ (if xs0 = [] then [DetectSeparators thr] else []) @
          [TempFile ''.png'', SaveFig fig, CloseUpload]))"
proof -
  let ?order = "sort_key (\<lambda>i. ts ! i) [0..<length ts]"
  let ?df' = "map (\<lambda>(name, c). (name, map (\<lambda>i. c ! i) ?order)) df"
  let ?thr = "form_default 20 (auto_gap_threshold form)"
  have cols: "{''time'', ''flux''} \<subseteq> set (columns df)"
    using tm fx getitem_absent[of "''time''" df] getitem_absent[of "''flux''" df] by auto
  have sv: "sort_values ''time'' df = Inr ?df'"
    using sort_values_present[OF tm] .
  have tm': "getitem ?df' ''time'' = Inr (map (\<lambda>i. ts ! i) ?order)"
    and fx': "getitem ?df' ''flux'' = Inr (map (\<lambda>i. fl ! i) ?order)"
    by (simp_all add: getitem_map_columns tm fx)
  have det: "detect_separators ?df' ?thr =
      Inr (mask_select (tl (sort ts)) (map (\<lambda>d. d > ?thr) (np_diff (sort ts))))"
    using detect_separators_unfold[OF tm', of ?thr] by (simp only: sort_reordered)
  show ?thesis
  proof (cases "parse_separators (separators form) = []")
    case True
    show ?thesis
      unfolding csv_to_graph_def csv_to_graph_try_def
      by (cases "savefig (light_curve_figure form (map (\<lambda>i. ts ! i) ?order) (map (\<lambda>i. fl ! i) ?order)
            (mask_select (tl (sort ts)) (map (\<lambda>d. d > ?thr) (np_diff (sort ts)))))")
         (simp_all add: ok rd cols sv tm' fx' det True run del: insert_subset)
  next
    case False
    show ?thesis
      unfolding csv_to_graph_def csv_to_graph_try_def
      by (cases "savefig (light_curve_figure form (map (\<lambda>i. ts ! i) ?order) (map (\<lambda>i. fl ! i) ?order)
            (parse_separators (separators form)))")
         (simp_all add: ok rd cols sv tm' fx' False run del: insert_subset)
  qed
qed

lemma csv_to_graph_not_csv:
  "\<not> endswith (filename (upload form)) ''.csv'' \<Longrightarrow>
     csv_to_graph savefig form =
       (Inl (HTTPException 400 ''El archivo debe ser un CSV.''), [CloseUpload])"
  by (simp add: csv_to_graph_def csv_to_graph_try_def run)

lemma csv_to_graph_unreadable:
  "endswith (filename (upload form)) ''.csv'' \<Longrightarrow> read_csv (upload form) = Inl msg \<Longrightarrow>
     csv_to_graph savefig form =
       (Inl (HTTPException 500 (''Error al procesar el CSV: '' @ msg)), [ReadCsv, CloseUpload])"
  by (simp add: csv_to_graph_def csv_to_graph_try_def run)

lemma csv_to_graph_missing_column:
  "endswith (filename (upload form)) ''.csv'' \<Longrightarrow> read_csv (upload form) = Inr df \<Longrightarrow>
     \<not> {''time'', ''flux''} \<subseteq> set (columns df) \<Longrightarrow>
     csv_to_graph savefig form =
       (Inl (HTTPException 400 ''El CSV debe contener las columnas 'time' y 'flux'.''),
        [ReadCsv, CloseUpload])"
  by (simp add: csv_to_graph_def csv_to_graph_try_def run del: insert_subset)



lemma csv_to_graph_trace:
  "snd (csv_to_graph savefig form) = [CloseUpload]
   \<or> snd (csv_to_graph savefig form) = [ReadCsv, CloseUpload]
   \<or> (\<exists>fig. snd (csv_to_graph savefig form) =
          [ReadCsv] @
          (if parse_separators (separators form) = []
           then [DetectSeparators (form_default 20 (auto_gap_threshold form))] else []) @
          [TempFile ''.png'', SaveFig fig, CloseUpload])"
proof (cases "endswith (filename (upload form)) ''.csv''")
  case False
  then show ?thesis by (simp add: csv_to_graph_not_csv)
next
  case ok: True
  show ?thesis
  proof (cases "read_csv (upload form)")
    case (Inl msg)
    then show ?thesis using ok by (simp add: csv_to_graph_unreadable)
  next
    case (Inr df)
    show ?thesis
    proof (cases "{''time'', ''flux''} \<subseteq> set (columns df)")
      case False
      then show ?thesis using ok Inr by (simp add: csv_to_graph_missing_column del: insert_subset)
    next
      case True
      then obtain ts fl where "getitem df ''time'' = Inr ts" "getitem df ''flux'' = Inr fl"
        using getitem_present[of "''time''" df] getitem_present[of "''flux''" df] by auto
      from csv_to_graph_valid[OF ok Inr this, of savefig]
      show ?thesis by (simp add: Let_def)
    qed
  qed
qed

subsection \<open>Manual and automatic separators\<close>

text \<open>
  Claim C4. In the plot endpoint, for a request that passes the checks of the file name and
  of the columns: when the separator text yields numbers, the vertical lines are drawn at
  exactly the parsed numbers, in the parser's order, and the detector is not called; when
  it yields none, the detector is called once, on the uploaded time values and with the
  request's threshold, and the lines are drawn at what it returns. For every request at
  all, the detector is called only when the parser yields no number. The parser's order is
  the order of the matches in the text: its values are those of the matches of the scan,
  which stand in the text one behind the other at increasing offsets. The text
  \<^verbatim>\<open>730, 370\<close> gives 730 and then 370: nothing is sorted.
\<close>

theorem csv_to_graph_separators:
  "(endswith (filename (upload form)) ''.csv'' \<and> read_csv (upload form) = Inr df \<and>
    {''time'', ''flux''} \<subseteq> set (columns df) \<longrightarrow>
      (parse_separators (separators form) \<noteq> [] \<longrightarrow>
         (\<exists>fig. snd (csv_to_graph savefig form) =
                  [ReadCsv, TempFile ''.png'', SaveFig fig, CloseUpload]
                \<and> map fst (vlines fig) = parse_separators (separators form))) \<and>
      (parse_separators (separators form) = [] \<longrightarrow>
         (\<exists>fig xs. snd (csv_to_graph savefig form) =
                  [ReadCsv, DetectSeparators (form_default 20 (auto_gap_threshold form)),
                   TempFile ''.png'', SaveFig fig, CloseUpload]
                \<and> detect_separators df (form_default 20 (auto_gap_threshold form)) = Inr xs
                \<and> map fst (vlines fig) = xs)))
   \<and> ((\<exists>t. DetectSeparators t \<in> set (snd (csv_to_graph savefig form))) \<longrightarrow>
        parse_separators (separators form) = [])
   \<and> (s \<noteq> [] \<longrightarrow>
        map Some (parse_separators (Some s)) = map (py_float \<circ> snd) (finditer (replace_commas s))
        \<and> sorted_wrt (\<lambda>(j, m) (k, n). j + length m \<le> k) (finditer (replace_commas s))
        \<and> (\<forall>(j, m) \<in> set (finditer (replace_commas s)).
              take (length m) (drop j (replace_commas s)) = m))
   \<and> parse_separators (Some ''730, 370'') = [730, 370]"
proof -
  let ?thr = "form_default 20 (auto_gap_threshold form)"
  let ?xs0 = "parse_separators (separators form)"
  have valid: "(?xs0 \<noteq> [] \<longrightarrow>
         (\<exists>fig. snd (csv_to_graph savefig form) =
                  [ReadCsv, TempFile ''.png'', SaveFig fig, CloseUpload]
                \<and> map fst (vlines fig) = ?xs0)) \<and>
      (?xs0 = [] \<longrightarrow>
         (\<exists>fig xs. snd (csv_to_graph savefig form) =
                  [ReadCsv, DetectSeparators ?thr, TempFile ''.png'', SaveFig fig, CloseUpload]
                \<and> detect_separators df ?thr = Inr xs
                \<and> map fst (vlines fig) = xs))"
    if ok: "endswith (filename (upload form)) ''.csv''" and rd: "read_csv (upload form) = Inr df"
      and cols: "{''time'', ''flux''} \<subseteq> set (columns df)"
  proof -
    obtain ts fl where tm: "getitem df ''time'' = Inr ts" and fx: "getitem df ''flux'' = Inr fl"
      using cols getitem_present[of "''time''" df] getitem_present[of "''flux''" df] by auto
    have v: "map fst (vlines (light_curve_figure form a b xs)) = xs" for a b xs
      by (simp add: light_curve_figure_def del: upt_Suc)
    show ?thesis
      using csv_to_graph_valid[OF ok rd tm fx, of savefig] detect_separators_unfold[OF tm, of ?thr] v
      by (auto simp: Let_def)
  qed
  have only: "?xs0 = []" if "\<exists>t. DetectSeparators t \<in> set (snd (csv_to_graph savefig form))"
    using that csv_to_graph_trace[of savefig form] by (auto split: if_splits)
  have order: "map Some (parse_separators (Some s)) = map (py_float \<circ> snd) (finditer (replace_commas s))
        \<and> sorted_wrt (\<lambda>(j, m) (k, n). j + length m \<le> k) (finditer (replace_commas s))
        \<and> (\<forall>(j, m) \<in> set (finditer (replace_commas s)).
              take (length m) (drop j (replace_commas s)) = m)" if "s \<noteq> []"
    using parse_separators_findall[OF that] scan_ordered[of 0 "replace_commas s"]
      scan_bounds[of 0 "replace_commas s"]
    by (auto simp: findall_def finditer_def)
  have ex: "parse_separators (Some ''730, 370'') = [730, 370]"
    by (simp add: parse_separators_def findall_def finditer_def match_number_def match_unsigned_def
        py_float_def digit_val_def digits_val_def is_digit_def is_sign_def replace_commas_def Let_def)
  show ?thesis using valid only order ex by blast
qed

text \<open>
  The statement at a request with the separator text \<^verbatim>\<open>730, 370\<close>, and at the same
  request with a separator text without numbers.
\<close>

theorem csv_to_graph_separators_witness:
  "parse_separators (Some ''730, 370'') = [730, 370]
   \<and> parse_separators (Some ''none'') = []
   \<and> finditer (replace_commas ''730, 370'') = [(0, ''730''), (5, ''370'')]
   \<and> (\<exists>fig. snd (csv_to_graph Inr
        \<lparr> upload = \<lparr> filename = ''lc.csv'',
              read_csv = Inr [(''time'', [40, 0, 1]), (''flux'', [3, 1, 2])] \<rparr>,
          title = None, x_label = None, y_label = None, separators = Some ''730, 370'',
          sep_color = None, auto_gap_threshold = None \<rparr>)
        = [ReadCsv, TempFile ''.png'', SaveFig fig, CloseUpload]
      \<and> map fst (vlines fig) = [730, 370])
   \<and> (\<exists>fig. snd (csv_to_graph Inr
        \<lparr> upload = \<lparr> filename = ''lc.csv'',
              read_csv = Inr [(''time'', [40, 0, 1]), (''flux'', [3, 1, 2])] \<rparr>,
          title = None, x_label = None, y_label = None, separators = Some ''none'',
          sep_color = None, auto_gap_threshold = None \<rparr>)
        = [ReadCsv, DetectSeparators 20, TempFile ''.png'', SaveFig fig, CloseUpload]
      \<and> map fst (vlines fig) = [40])"
proof -
  note ev = parse_separators_def findall_def finditer_def match_number_def match_unsigned_def
    py_float_def digit_val_def digits_val_def is_digit_def is_sign_def replace_commas_def Let_def
  have p1: "parse_separators (Some ''730, 370'') = [730, 370]" by (simp add: ev)
  have p2: "parse_separators (Some ''none'') = []" by (simp add: ev)
  have p3: "finditer (replace_commas ''730, 370'') = [(0, ''730''), (5, ''370'')]"
    by (simp add: ev)
  have d: "detect_separators [(''time'', [40, 0, 1]), (''flux'', [3, 1, 2])] 20 = Inr [40]"
    by (simp add: detect_separators_def getitem_def np_diff_def mask_select_def)
  show ?thesis
    using csv_to_graph_separators[where savefig = Inr and df = "[(''time'', [40, 0, 1]), (''flux'', [3, 1, 2])]"
        and form = "\<lparr> upload = \<lparr> filename = ''lc.csv'',
              read_csv = Inr [(''time'', [40, 0, 1]), (''flux'', [3, 1, 2])] \<rparr>,
          title = None, x_label = None, y_label = None, separators = Some ''730, 370'',
          sep_color = None, auto_gap_threshold = None \<rparr>"]
      csv_to_graph_separators[where savefig = Inr and df = "[(''time'', [40, 0, 1]), (''flux'', [3, 1, 2])]"
        and form = "\<lparr> upload = \<lparr> filename = ''lc.csv'',
              read_csv = Inr [(''time'', [40, 0, 1]), (''flux'', [3, 1, 2])] \<rparr>,
          title = None, x_label = None, y_label = None, separators = Some ''none'',
          sep_color = None, auto_gap_threshold = None \<rparr>"]
    by (simp add: p1 p2 p3 d endswith_def suffix_def columns_def form_default_def)
qed

subsection \<open>The threshold the detector receives\<close>

text \<open>
  Claim C8, as stated, fails: the handler passes the request's threshold on as it is. A
  request with the threshold \<open>-5\<close> makes the detector run with \<open>-5\<close>, which on the time
  values 0, 1 marks a boundary at 1 where the default 20 marks none.
\<close>

theorem csv_to_graph_threshold_not_normalised:
  "DetectSeparators (- 5) \<in> set (snd (csv_to_graph Inr
        \<lparr> upload = \<lparr> filename = ''lc.csv'',
              read_csv = Inr [(''time'', [0, 1]), (''flux'', [1, 1])] \<rparr>,
          title = None, x_label = None, y_label = None, separators = None,
          sep_color = None, auto_gap_threshold = Some (- 5) \<rparr>))
   \<and> \<not> (0 :: real) < - 5
   \<and> detect_separators [(''time'', [0, 1]), (''flux'', [1, 1])] (- 5) = Inr [1]
   \<and> detect_separators [(''time'', [0, 1]), (''flux'', [1, 1])] 20 = Inr []"
proof -
  have "getitem [(''time'', [0, 1]), (''flux'', [1, 1 :: real])] ''time'' = Inr [0, 1]"
    "getitem [(''time'', [0, 1]), (''flux'', [1, 1 :: real])] ''flux'' = Inr [1, 1]"
    by (simp_all add: getitem_def)
  then have "DetectSeparators (- 5) \<in> set (snd (csv_to_graph Inr
        \<lparr> upload = \<lparr> filename = ''lc.csv'',
              read_csv = Inr [(''time'', [0, 1]), (''flux'', [1, 1])] \<rparr>,
          title = None, x_label = None, y_label = None, separators = None,
          sep_color = None, auto_gap_threshold = Some (- 5) \<rparr>))"
    by (subst csv_to_graph_valid[where df = "[(''time'', [0, 1]), (''flux'', [1, 1])]"
          and ts = "[0, 1]" and fl = "[1, 1]"])
       (simp_all add: endswith_def suffix_def parse_separators_def form_default_def Let_def)
  moreover have "detect_separators [(''time'', [0, 1]), (''flux'', [1, 1])] (- 5) = Inr [1]"
    "detect_separators [(''time'', [0, 1]), (''flux'', [1, 1])] 20 = Inr []"
    by (simp_all add: detect_separators_def getitem_def np_diff_def mask_select_def)
  ultimately show ?thesis by simp
qed

text \<open>
  Claim C8, amended. Whenever the detector is called, its threshold is the request's
  \<^verbatim>\<open>auto_gap_threshold\<close>, which is 20 when the field is absent; nothing normalises it.
  So the threshold used is positive when the field is absent or holds a positive number.
\<close>

theorem csv_to_graph_threshold:
  "DetectSeparators t \<in> set (snd (csv_to_graph savefig form)) \<Longrightarrow>
     t = form_default 20 (auto_gap_threshold form)
     \<and> (auto_gap_threshold form = None \<longrightarrow> t = 20)
     \<and> (auto_gap_threshold form = None \<or> (\<exists>v. auto_gap_threshold form = Some v \<and> 0 < v)
          \<longrightarrow> 0 < t)"
proof -
  assume "DetectSeparators t \<in> set (snd (csv_to_graph savefig form))"
  then have "t = form_default 20 (auto_gap_threshold form)"
    using csv_to_graph_trace[of savefig form] by (auto split: if_splits)
  then show ?thesis by (auto simp: form_default_def)
qed

text \<open>The statement at a request without the threshold field.\<close>

theorem csv_to_graph_threshold_witness:
  "DetectSeparators 20 \<in> set (snd (csv_to_graph Inr
        \<lparr> upload = \<lparr> filename = ''lc.csv'',
              read_csv = Inr [(''time'', [0, 30]), (''flux'', [1, 1])] \<rparr>,
          title = None, x_label = None, y_label = None, separators = None,
          sep_color = None, auto_gap_threshold = None \<rparr>))
   \<and> (0 :: real) < 20"
proof -
  have g: "getitem [(''time'', [0, 30]), (''flux'', [1, 1 :: real])] ''time'' = Inr [0, 30]"
    "getitem [(''time'', [0, 30]), (''flux'', [1, 1 :: real])] ''flux'' = Inr [1, 1]"
    by (simp_all add: getitem_def)
  have tr: "DetectSeparators 20 \<in> set (snd (csv_to_graph Inr
        \<lparr> upload = \<lparr> filename = ''lc.csv'',
              read_csv = Inr [(''time'', [0, 30]), (''flux'', [1, 1])] \<rparr>,
          title = None, x_label = None, y_label = None, separators = None,
          sep_color = None, auto_gap_threshold = None \<rparr>))"
    using g
    by (subst csv_to_graph_valid[where df = "[(''time'', [0, 30]), (''flux'', [1, 1])]"
          and ts = "[0, 30]" and fl = "[1, 1]"])
       (simp_all add: endswith_def suffix_def parse_separators_def form_default_def Let_def)
  from csv_to_graph_threshold[OF tr] show ?thesis using tr by simp
qed

subsection \<open>The prediction endpoint, path by path\<close>


lemma select_columns_present:
  "set names \<subseteq> set (columns df) \<Longrightarrow> \<exists>X. select_columns df names = Inr X"
proof (induction names)
  case Nil
  show ?case by simp
next
  case (Cons c cs)
  then obtain col X where "getitem df c = Inr col" "select_columns df cs = Inr X"
    using getitem_present[of c df] by auto
  then show ?case by simp
qed





subsection \<open>Client errors of the two endpoints\<close>



subsection \<open>Assigning a column\<close>

lemma getitem_replaced:
  "name \<in> set (columns df) \<Longrightarrow>
     getitem (map (\<lambda>(n, c). if n = name then (n, vals) else (n, c)) df) name = Inr vals"
  by (induction df) (auto simp: getitem_def columns_def)

lemma getitem_replaced_other:
  "k \<noteq> name \<Longrightarrow>
     getitem (map (\<lambda>(n, c). if n = name then (n, vals) else (n, c)) df) k = getitem df k"
  by (induction df) (auto simp: getitem_def)

lemma getitem_appended:
  "name \<notin> set (columns df) \<Longrightarrow> getitem (df @ [(name, vals)]) name = Inr vals"
  by (induction df) (auto simp: getitem_def columns_def)

lemma getitem_appended_other:
  "k \<noteq> name \<Longrightarrow> getitem (df @ [(name, vals)]) k = getitem df k"
  by (induction df) (auto simp: getitem_def)

lemma columns_replaced:
  "columns (map (\<lambda>(n, c). if n = name then (n, vals) else (n, c)) df) = columns df"
  by (induction df) (auto simp: columns_def)

lemma nrows_replaced:
  "df \<noteq> [] \<Longrightarrow> length vals = nrows df \<Longrightarrow>
     nrows (map (\<lambda>(n, c). if n = name then (n, vals) else (n, c)) df) = nrows df"
  by (cases df) (auto simp: nrows_def)

lemma setitem_result:
  assumes "setitem df name vals = Inr df'"
  shows "getitem df' name = Inr vals"
    and "k \<noteq> name \<Longrightarrow> getitem df' k = getitem df k"
    and "columns df' = columns df @ (if name \<in> set (columns df) then [] else [name])"
    and "nrows df' = length vals"
    and "df' \<noteq> []"
proof -
  have len: "df = [] \<or> length vals = nrows df"
    using assms by (auto simp: setitem_def split: if_splits)
  have df': "df' = (if name \<in> set (columns df)
                   then map (\<lambda>(n, c). if n = name then (n, vals) else (n, c)) df
                   else df @ [(name, vals)])"
    using assms by (auto simp: setitem_def split: if_splits)
  show "getitem df' name = Inr vals"
    by (simp add: df' getitem_replaced getitem_appended)
  show "k \<noteq> name \<Longrightarrow> getitem df' k = getitem df k"
    by (simp add: df' getitem_replaced_other getitem_appended_other)
  show "columns df' = columns df @ (if name \<in> set (columns df) then [] else [name])"
    by (simp add: df' columns_replaced) (simp add: columns_def)
  show "nrows df' = length vals"
  proof (cases "name \<in> set (columns df)")
    case True
    then have "df \<noteq> []" by (auto simp: columns_def)
    then show ?thesis using len True by (simp add: df' nrows_replaced)
  next
    case False
    then show ?thesis using len by (cases df) (auto simp: df' nrows_def)
  qed
  show "df' \<noteq> []"
    by (cases "name \<in> set (columns df)") (auto simp: df' columns_def)
qed

lemma setitem_succeeds:
  "df = [] \<or> length vals = nrows df \<Longrightarrow> \<exists>df'. setitem df name vals = Inr df'"
  by (auto simp: setitem_def)

lemma setitem_new:
  "df = [] \<or> length vals = nrows df \<Longrightarrow> name \<notin> set (columns df) \<Longrightarrow>
     setitem df name vals = Inr (df @ [(name, vals)])"
  by (auto simp: setitem_def)

lemma predict_from_csv_success:
  assumes ok: "endswith (filename f) ''.csv''"
    and rd: "read_csv f = Inr df"
    and fn: "feature_names_in model = Some names"
    and cols: "set names \<subseteq> set (columns df)"
    and sel: "select_columns df names = Inr X"
    and pp: "predict_proba model X = Inr P"
    and sc: "second_column P = Inr ps"
    and pr: "predict model X = Inr L"
    and s1: "setitem df ''prob_confirme_planeta'' (map Num ps) = Inr df1"
    and s2: "setitem df1 ''prediccion'' L = Inr df2"
  shows "predict_from_csv model f =
     (Inr \<lparr> body = df2, media_type = ''text/csv'',
            download_name = ''predicciones_exoplanetas.csv'' \<rparr>,
      [ReadCsv, TempFile ''.csv'', ToCsv, CloseUpload])"
proof -
  have "filter (\<lambda>c. c \<notin> set (columns df)) names = []"
    using cols by (auto simp: filter_empty_conv)
  then show ?thesis
    unfolding predict_from_csv_def predict_from_csv_try_def
    by (simp add: ok rd fn sel pp sc pr s1 s2 run)
qed

subsection \<open>The returned table\<close>

text \<open>
  Claim C7, as stated, fails for a table that already has a column named
  \<^verbatim>\<open>prediccion\<close>: the request is valid, but the returned table has one new column, not
  two, and the values of the input's \<^verbatim>\<open>prediccion\<close> column are gone.
\<close>

theorem predict_from_csv_overwrites_existing_column:
  "predict_from_csv
        \<lparr> feature_names_in = Some [''koi_score''],
          predict_proba = (\<lambda>X. Inr [[0.2, 0.8]]), predict = (\<lambda>X. Inr [Num 1]) \<rparr>
        \<lparr> filename = ''kois.csv'',
          read_csv = Inr [(''koi_score'', [Num 0.9]), (''prediccion'', [Str ''candidate''])] \<rparr>
     = (Inr \<lparr> body = [(''koi_score'', [Num 0.9]), (''prediccion'', [Num 1]),
                       (''prob_confirme_planeta'', [Num 0.8])],
              media_type = ''text/csv'', download_name = ''predicciones_exoplanetas.csv'' \<rparr>,
        [ReadCsv, TempFile ''.csv'', ToCsv, CloseUpload])
   \<and> length (columns [(''koi_score'', [Num 0.9]), (''prediccion'', [Num 1]),
                       (''prob_confirme_planeta'', [Num 0.8])])
       \<noteq> length (columns [(''koi_score'', [Num 0.9]), (''prediccion'', [Str ''candidate''])]) + 2
   \<and> getitem [(''koi_score'', [Num 0.9]), (''prediccion'', [Num 1]),
                (''prob_confirme_planeta'', [Num 0.8])] ''prediccion''
       \<noteq> getitem [(''koi_score'', [Num 0.9]), (''prediccion'', [Str ''candidate''])] ''prediccion''"
proof -
  have "predict_from_csv
        \<lparr> feature_names_in = Some [''koi_score''],
          predict_proba = (\<lambda>X. Inr [[0.2, 0.8]]), predict = (\<lambda>X. Inr [Num 1]) \<rparr>
        \<lparr> filename = ''kois.csv'',
          read_csv = Inr [(''koi_score'', [Num 0.9]), (''prediccion'', [Str ''candidate''])] \<rparr>
     = (Inr \<lparr> body = [(''koi_score'', [Num 0.9]), (''prediccion'', [Num 1]),
                       (''prob_confirme_planeta'', [Num 0.8])],
              media_type = ''text/csv'', download_name = ''predicciones_exoplanetas.csv'' \<rparr>,
        [ReadCsv, TempFile ''.csv'', ToCsv, CloseUpload])"
    by (rule predict_from_csv_success[where df = "[(''koi_score'', [Num 0.9]), (''prediccion'', [Str ''candidate''])]"
          and names = "[''koi_score'']" and X = "[(''koi_score'', [Num 0.9])]"
          and P = "[[0.2, 0.8]]" and ps = "[0.8]" and L = "[Num 1]"
          and ?df1.0 = "[(''koi_score'', [Num 0.9]), (''prediccion'', [Str ''candidate'']),
                       (''prob_confirme_planeta'', [Num 0.8])]"])
       (simp_all add: endswith_def suffix_def columns_def getitem_def second_column_def
          setitem_def nrows_def)
  then show ?thesis by (simp add: columns_def getitem_def)
qed

text \<open>
  Claim C7, amended. For a valid prediction request (the name ends in \<^verbatim>\<open>.csv\<close>, the CSV
  is readable and has every column the model declares, and the model answers with one row
  of at least two class probabilities, each second one in [0,1], and one label per row of
  the table) whose table has no column named \<^verbatim>\<open>prob_confirme_planeta\<close> or
  \<^verbatim>\<open>prediccion\<close>, the returned CSV is the input table, same rows in the same order and
  every input column unchanged, with exactly two new columns behind the others,
  \<^verbatim>\<open>prob_confirme_planeta\<close> and \<^verbatim>\<open>prediccion\<close>, one value per row, each probability within
  [0,1].
\<close>

theorem predict_from_csv_augments:
  assumes "endswith (filename f) ''.csv''"
    and "read_csv f = Inr df"
    and "feature_names_in model = Some names"
    and "set names \<subseteq> set (columns df)"
    and "select_columns df names = Inr X"
    and "predict_proba model X = Inr P"
    and "length P = nrows df"
    and "\<forall>row \<in> set P. 2 \<le> length row \<and> 0 \<le> row ! 1 \<and> row ! 1 \<le> 1"
    and "predict model X = Inr L"
    and "length L = nrows df"
    and "''prob_confirme_planeta'' \<notin> set (columns df)"
    and "''prediccion'' \<notin> set (columns df)"
  shows "\<exists>resp ps.
      predict_from_csv model f = (Inr resp, [ReadCsv, TempFile ''.csv'', ToCsv, CloseUpload])
    \<and> media_type resp = ''text/csv''
    \<and> body resp = df @ [(''prob_confirme_planeta'', map Num ps), (''prediccion'', L)]
    \<and> ps = map (\<lambda>row. row ! 1) P
    \<and> length ps = nrows df \<and> length L = nrows df
    \<and> nrows (body resp) = nrows df
    \<and> (\<forall>p \<in> set ps. 0 \<le> p \<and> p \<le> 1)
    \<and> (\<forall>name \<in> set (columns df). getitem (body resp) name = getitem df name)
    \<and> columns (body resp) = columns df @ [''prob_confirme_planeta'', ''prediccion'']"
proof -
  let ?ps = "map (\<lambda>row. row ! 1) P"
  let ?df1 = "df @ [(''prob_confirme_planeta'', map Num ?ps)]"
  let ?df2 = "?df1 @ [(''prediccion'', L)]"
  have sc: "second_column P = Inr ?ps"
    using assms(8) by (auto simp: second_column_def list_ex_iff)
  have s1: "setitem df ''prob_confirme_planeta'' (map Num ?ps) = Inr ?df1"
    using assms(7,11) by (intro setitem_new) simp_all
  have n1: "nrows ?df1 = nrows df"
    using setitem_result(4)[OF s1] assms(7) by simp
  have c1: "''prediccion'' \<notin> set (columns ?df1)"
    using assms(12) by (simp add: columns_def)
  have s2: "setitem ?df1 ''prediccion'' L = Inr ?df2"
    using assms(10) n1 c1 by (intro setitem_new) simp_all
  have run: "predict_from_csv model f =
     (Inr \<lparr> body = ?df2, media_type = ''text/csv'',
            download_name = ''predicciones_exoplanetas.csv'' \<rparr>,
      [ReadCsv, TempFile ''.csv'', ToCsv, CloseUpload])"
    using predict_from_csv_success[OF assms(1-6) sc assms(9) s1 s2] .
  have n2: "nrows ?df2 = nrows df"
    using setitem_result(4)[OF s2] assms(10) by simp
  have bounds: "\<forall>p \<in> set ?ps. 0 \<le> p \<and> p \<le> 1"
    using assms(8) by auto
  have keep: "\<forall>name \<in> set (columns df). getitem ?df2 name = getitem df name"
  proof
    fix name assume "name \<in> set (columns df)"
    then have "name \<noteq> ''prob_confirme_planeta''" "name \<noteq> ''prediccion''"
      using assms(11,12) by auto
    then show "getitem ?df2 name = getitem df name"
      using setitem_result(2)[OF s1, of name] setitem_result(2)[OF s2, of name] by simp
  qed
  have cs: "columns ?df2 = columns df @ [''prob_confirme_planeta'', ''prediccion'']"
    by (simp add: columns_def)
  show ?thesis
    using run n2 bounds keep cs assms(7,10) by (intro exI[of _ "\<lparr> body = ?df2, media_type = ''text/csv'',
            download_name = ''predicciones_exoplanetas.csv'' \<rparr>"] exI[of _ ?ps]) simp
qed

text \<open>
  The statement at a table of two rows and three columns, for a model that declares two of
  them, in another order than the table's.
\<close>

theorem predict_from_csv_augments_witness:
  "\<exists>resp ps. predict_from_csv
        \<lparr> feature_names_in = Some [''koi_period'', ''koi_score''],
          predict_proba = (\<lambda>X. Inr [[0.3, 0.7], [0.9, 0.1]]),
          predict = (\<lambda>X. Inr [Num 1, Num 0]) \<rparr>
        \<lparr> filename = ''kois.csv'',
          read_csv = Inr [(''kepid'', [Str ''K1'', Str ''K2'']), (''koi_score'', [Num 0.9, Missing]),
                          (''koi_period'', [Num 3.5, Num 12])] \<rparr>
      = (Inr resp, [ReadCsv, TempFile ''.csv'', ToCsv, CloseUpload])
    \<and> body resp = [(''kepid'', [Str ''K1'', Str ''K2'']), (''koi_score'', [Num 0.9, Missing]),
                    (''koi_period'', [Num 3.5, Num 12]),
                    (''prob_confirme_planeta'', [Num 0.7, Num 0.1]),
                    (''prediccion'', [Num 1, Num 0])]
    \<and> nrows (body resp) = 2"
proof -
  let ?df = "[(''kepid'', [Str ''K1'', Str ''K2'']), (''koi_score'', [Num 0.9, Missing]),
              (''koi_period'', [Num 3.5, Num 12])]"
  have "\<exists>resp ps. predict_from_csv
        \<lparr> feature_names_in = Some [''koi_period'', ''koi_score''],
          predict_proba = (\<lambda>X. Inr [[0.3, 0.7], [0.9, 0.1]]),
          predict = (\<lambda>X. Inr [Num 1, Num 0]) \<rparr>
        \<lparr> filename = ''kois.csv'', read_csv = Inr ?df \<rparr>
      = (Inr resp, [ReadCsv, TempFile ''.csv'', ToCsv, CloseUpload])
    \<and> media_type resp = ''text/csv''
    \<and> body resp = ?df @ [(''prob_confirme_planeta'', map Num ps), (''prediccion'', [Num 1, Num 0])]
    \<and> ps = map (\<lambda>row. row ! 1) [[0.3, 0.7], [0.9, 0.1]]
    \<and> length ps = nrows ?df \<and> length [Num 1, Num 0] = nrows ?df
    \<and> nrows (body resp) = nrows ?df
    \<and> (\<forall>p \<in> set ps. 0 \<le> p \<and> p \<le> 1)
    \<and> (\<forall>name \<in> set (columns ?df). getitem (body resp) name = getitem ?df name)
    \<and> columns (body resp) = columns ?df @ [''prob_confirme_planeta'', ''prediccion'']"
    by (rule predict_from_csv_augments[where names = "[''koi_period'', ''koi_score'']"
          and X = "[(''koi_period'', [Num 3.5, Num 12]), (''koi_score'', [Num 0.9, Missing])]"])
       (simp_all add: endswith_def suffix_def columns_def getitem_def nrows_def)
  then obtain resp ps where r: "predict_from_csv
        \<lparr> feature_names_in = Some [''koi_period'', ''koi_score''],
          predict_proba = (\<lambda>X. Inr [[0.3, 0.7], [0.9, 0.1]]),
          predict = (\<lambda>X. Inr [Num 1, Num 0]) \<rparr>
        \<lparr> filename = ''kois.csv'', read_csv = Inr ?df \<rparr>
      = (Inr resp, [ReadCsv, TempFile ''.csv'', ToCsv, CloseUpload])"
    "body resp = ?df @ [(''prob_confirme_planeta'', map Num ps), (''prediccion'', [Num 1, Num 0])]"
    "ps = map (\<lambda>row. row ! 1) [[0.3, 0.7], [0.9, 0.1]]"
    "nrows (body resp) = nrows ?df"
    by blast
  have "body resp = ?df @ [(''prob_confirme_planeta'', [Num 0.7, Num 0.1]), (''prediccion'', [Num 1, Num 0])]"
    using r(2,3) by simp
  moreover have "nrows (body resp) = 2" using r(4) by (simp add: nrows_def)
  ultimately show ?thesis using r(1) by (intro exI[of _ resp] exI[of _ ps]) simp
qed

text \<open>
  Claim C10. When the model answers a valid request with one probability and one label per
  row, the returned table's columns \<^verbatim>\<open>prob_confirme_planeta\<close> and \<^verbatim>\<open>prediccion\<close> hold the
  model's outputs, also when the uploaded table already had a column of that name: such a
  column is overwritten where it stands and no second column of the name is added. So an
  uploaded column of one of the two names whose values are not the model's outputs does
  not survive.
\<close>

theorem predict_from_csv_overwrites:
  assumes "endswith (filename f) ''.csv''"
    and "read_csv f = Inr df"
    and "feature_names_in model = Some names"
    and "set names \<subseteq> set (columns df)"
    and "select_columns df names = Inr X"
    and "predict_proba model X = Inr P"
    and "second_column P = Inr ps"
    and "length ps = nrows df"
    and "predict model X = Inr L"
    and "length L = nrows df"
  shows "\<exists>resp.
      fst (predict_from_csv model f) = Inr resp
    \<and> getitem (body resp) ''prob_confirme_planeta'' = Inr (map Num ps)
    \<and> getitem (body resp) ''prediccion'' = Inr L
    \<and> columns (body resp) =
        columns df @ filter (\<lambda>n. n \<notin> set (columns df)) [''prob_confirme_planeta'', ''prediccion'']
    \<and> (''prob_confirme_planeta'' \<in> set (columns df) \<and>
        getitem df ''prob_confirme_planeta'' \<noteq> Inr (map Num ps) \<longrightarrow>
          getitem (body resp) ''prob_confirme_planeta'' \<noteq> getitem df ''prob_confirme_planeta'')
    \<and> (''prediccion'' \<in> set (columns df) \<and> getitem df ''prediccion'' \<noteq> Inr L \<longrightarrow>
          getitem (body resp) ''prediccion'' \<noteq> getitem df ''prediccion'')"
proof -
  obtain df1 where s1: "setitem df ''prob_confirme_planeta'' (map Num ps) = Inr df1"
    using setitem_succeeds[of df "map Num ps"] assms(8) by auto
  have "length L = nrows df1"
    using setitem_result(4)[OF s1] assms(8,10) by simp
  then obtain df2 where s2: "setitem df1 ''prediccion'' L = Inr df2"
    using setitem_succeeds[of df1 L] by auto
  have run: "predict_from_csv model f =
     (Inr \<lparr> body = df2, media_type = ''text/csv'',
            download_name = ''predicciones_exoplanetas.csv'' \<rparr>,
      [ReadCsv, TempFile ''.csv'', ToCsv, CloseUpload])"
    using predict_from_csv_success[OF assms(1-7) assms(9) s1 s2] .
  have g2: "getitem df2 ''prediccion'' = Inr L"
    using setitem_result(1)[OF s2] .
  have g1: "getitem df2 ''prob_confirme_planeta'' = Inr (map Num ps)"
    using setitem_result(2)[OF s2, of "''prob_confirme_planeta''"] setitem_result(1)[OF s1]
    by simp
  have c1: "columns df1 = columns df @
      (if ''prob_confirme_planeta'' \<in> set (columns df) then [] else [''prob_confirme_planeta''])"
    using setitem_result(3)[OF s1] .
  have c2: "columns df2 = columns df1 @
      (if ''prediccion'' \<in> set (columns df1) then [] else [''prediccion''])"
    using setitem_result(3)[OF s2] .
  have cs: "columns df2 =
      columns df @ filter (\<lambda>n. n \<notin> set (columns df)) [''prob_confirme_planeta'', ''prediccion'']"
    by (simp add: c2 c1)
  show ?thesis
    using run g1 g2 cs
    by (intro exI[of _ "\<lparr> body = df2, media_type = ''text/csv'',
            download_name = ''predicciones_exoplanetas.csv'' \<rparr>"]) auto
qed

text \<open>
  The statement at a table that already has both columns, one before and one behind the
  feature column.
\<close>

theorem predict_from_csv_overwrites_witness:
  "\<exists>resp. fst (predict_from_csv
        \<lparr> feature_names_in = Some [''koi_score''],
          predict_proba = (\<lambda>X. Inr [[0.75, 0.25], [0.5, 0.5]]),
          predict = (\<lambda>X. Inr [Str ''FALSE POSITIVE'', Str ''CONFIRMED'']) \<rparr>
        \<lparr> filename = ''kois.csv'',
          read_csv = Inr [(''prob_confirme_planeta'', [Num 1, Num 1]), (''koi_score'', [Num 0.1, Num 0.6]),
                          (''prediccion'', [Missing, Missing])] \<rparr>) = Inr resp
    \<and> getitem (body resp) ''prob_confirme_planeta'' = Inr [Num 0.25, Num 0.5]
    \<and> getitem (body resp) ''prediccion'' = Inr [Str ''FALSE POSITIVE'', Str ''CONFIRMED'']
    \<and> columns (body resp) = [''prob_confirme_planeta'', ''koi_score'', ''prediccion'']
    \<and> getitem (body resp) ''prob_confirme_planeta''
        \<noteq> getitem [(''prob_confirme_planeta'', [Num 1, Num 1]), (''koi_score'', [Num 0.1, Num 0.6]),
                    (''prediccion'', [Missing, Missing])] ''prob_confirme_planeta''
    \<and> getitem (body resp) ''prediccion''
        \<noteq> getitem [(''prob_confirme_planeta'', [Num 1, Num 1]), (''koi_score'', [Num 0.1, Num 0.6]),
                    (''prediccion'', [Missing, Missing])] ''prediccion''"
proof -
  let ?df = "[(''prob_confirme_planeta'', [Num 1, Num 1]), (''koi_score'', [Num 0.1, Num 0.6]),
              (''prediccion'', [Missing, Missing])]"
  let ?L = "[Str ''FALSE POSITIVE'', Str ''CONFIRMED'']"
  have "\<exists>resp. fst (predict_from_csv
        \<lparr> feature_names_in = Some [''koi_score''],
          predict_proba = (\<lambda>X. Inr [[0.75, 0.25], [0.5, 0.5]]),
          predict = (\<lambda>X. Inr ?L) \<rparr>
        \<lparr> filename = ''kois.csv'', read_csv = Inr ?df \<rparr>) = Inr resp
    \<and> getitem (body resp) ''prob_confirme_planeta'' = Inr (map Num [0.25, 0.5])
    \<and> getitem (body resp) ''prediccion'' = Inr ?L
    \<and> columns (body resp) =
        columns ?df @ filter (\<lambda>n. n \<notin> set (columns ?df)) [''prob_confirme_planeta'', ''prediccion'']
    \<and> (''prob_confirme_planeta'' \<in> set (columns ?df) \<and>
        getitem ?df ''prob_confirme_planeta'' \<noteq> Inr (map Num [0.25, 0.5]) \<longrightarrow>
          getitem (body resp) ''prob_confirme_planeta'' \<noteq> getitem ?df ''prob_confirme_planeta'')
    \<and> (''prediccion'' \<in> set (columns ?df) \<and> getitem ?df ''prediccion'' \<noteq> Inr ?L \<longrightarrow>
          getitem (body resp) ''prediccion'' \<noteq> getitem ?df ''prediccion'')"
    by (rule predict_from_csv_overwrites[where names = "[''koi_score'']"
          and X = "[(''koi_score'', [Num 0.1, Num 0.6])]" and P = "[[0.75, 0.25], [0.5, 0.5]]"])
       (simp_all add: endswith_def suffix_def columns_def getitem_def nrows_def second_column_def)
  then show ?thesis
    by (simp add: columns_def getitem_def)
qed

end
